theory Spec2Isabelle
  imports Main "HOL-Library.Multiset" "HOL-Library.Word"
begin

section \<open>ServiceHub notification server: data model\<close>

text \<open>
  The server of \<^verbatim>\<open>src/server_db.js\<close> keeps two pieces of state: the in-memory map
  \<^verbatim>\<open>clients\<close> from a recipient's email to the response object of the open event stream, and
  the MongoDB collection behind the \<^verbatim>\<open>Notification\<close> model of
  \<^verbatim>\<open>src/models/Notification.js\<close>. Each request handler is modelled as a function from the
  state and the request to the new state and the response. The mark-opened handler is two
  such functions, one up to its \<^verbatim>\<open>findOne\<close> and one from its \<^verbatim>\<open>save\<close> on, and the
  dispatch loop is one function per target, so that the steps of other requests can come
  between them.

  Request fields are typed as the schema types them, each one optional: \<open>None\<close> is a field
  that is absent or \<^verbatim>\<open>null\<close>. The one field the schema leaves untyped (\<^verbatim>\<open>Mixed\<close>), the
  originator's notification id, is a JavaScript primitive. An element of \<^verbatim>\<open>targetUsers\<close>
  is \<^verbatim>\<open>null\<close> or has the three fields of a target (none of them, when it is not an
  object). Dates are milliseconds as integers.

  A JavaScript number is a double. The model keeps the numbers that a double holds exactly,
  that JSON text gives without rounding and that are printed with all their digits: the
  integers from \<open>- 2\<^sup>5\<^sup>3\<close> to \<open>2\<^sup>5\<^sup>3 - 1\<close>, as the words of 54 bits read with their
  sign. Nothing in the server computes with a number; it is only tested for zero, compared
  and printed.
\<close>

type_synonym jsnum = "54 word"

datatype jsval = JUndefined | JNull | JBool bool | JNum jsnum | JStr string

subsection \<open>JavaScript truthiness and string conversion\<close>

definition truthy_str :: "string option \<Rightarrow> bool" where
  "truthy_str v = (case v of None \<Rightarrow> False | Some s \<Rightarrow> s \<noteq> [])"

definition truthy_bool :: "bool option \<Rightarrow> bool" where
  "truthy_bool v = (case v of None \<Rightarrow> False | Some b \<Rightarrow> b)"

fun truthy :: "jsval \<Rightarrow> bool" where
  "truthy JUndefined = False"
| "truthy JNull = False"
| "truthy (JBool b) = b"
| "truthy (JNum n) = (n \<noteq> 0)"
| "truthy (JStr s) = (s \<noteq> [])"

text \<open>\<^verbatim>\<open>a || d\<close> on an optional string with a string default.\<close>

definition or_str :: "string option \<Rightarrow> string \<Rightarrow> string" where
  "or_str v d = (case v of None \<Rightarrow> d | Some s \<Rightarrow> if s = [] then d else s)"

definition digit_char :: "nat \<Rightarrow> char" where
  "digit_char d = ''0123456789'' ! d"

function nat_digits :: "nat \<Rightarrow> string" where
  "nat_digits n =
     (if n < 10 then [digit_char n] else nat_digits (n div 10) @ [digit_char (n mod 10)])"
  by pat_completeness auto
termination
  by (relation "measure id") auto

declare nat_digits.simps [simp del]

text \<open>The text a template literal gives a number: its sign and all its digits.\<close>

definition number_to_string :: "jsnum \<Rightarrow> string" where
  "number_to_string n =
     (if sint n < 0 then CHR ''-'' # nat_digits (nat (- sint n)) else nat_digits (nat (sint n)))"

fun js_to_string :: "jsval \<Rightarrow> string" where
  "js_to_string JUndefined = ''undefined''"
| "js_to_string JNull = ''null''"
| "js_to_string (JBool b) = (if b then ''true'' else ''false'')"
| "js_to_string (JNum n) = number_to_string n"
| "js_to_string (JStr s) = s"

subsection \<open>Requests\<close>

text \<open>An element of \<^verbatim>\<open>targetUsers\<close>: \<^verbatim>\<open>{ email, userId, name }\<close>.\<close>

record target =
  t_email :: "string option"
  t_userId :: "jsnum option"
  t_name :: "string option"

text \<open>
  The body of \<^verbatim>\<open>POST /api/notifications/receive\<close>. \<open>targetUsers = None\<close> is a field that is
  absent or not an array; an element \<open>None\<close> of the array is \<^verbatim>\<open>null\<close>. \<open>req_metadata\<close> lists the own properties of \<^verbatim>\<open>metadata\<close> (none when
  it is absent).
\<close>

record body =
  req_source :: "string option"
  req_notificationId :: jsval
  req_title :: "string option"
  req_content :: "string option"
  req_priority :: "string option"
  req_type :: "string option"
  targetUsers :: "target option list option"
  req_metadata :: "(string \<times> jsval) list"
  req_trackingEnabled :: "bool option"
  req_trackingCallbackUrl :: "string option"

subsection \<open>The stored document\<close>

record metadata_obj =
  md_fields :: "(string \<times> jsval) list"
  targetUser :: target

text \<open>The fields of \<^verbatim>\<open>notificationSchema\<close>; \<open>ntype\<close> is the schema's \<^verbatim>\<open>type\<close>.\<close>

record notification =
  notificationId :: string
  sourceNotificationId :: jsval
  userEmail :: string
  userId :: "jsnum option"
  source :: string
  title :: string
  content :: string
  priority :: string
  ntype :: string
  severity :: string
  read :: bool
  opened :: bool
  openedAt :: "int option"
  metadata :: metadata_obj
  trackingEnabled :: bool
  trackingCallbackUrl :: "string option"
  timestamp :: int
  createdAt :: int

text \<open>
  What the handlers send of a document. The stream's \<^verbatim>\<open>sseData\<close> has no \<^verbatim>\<open>openedAt\<close>;
  the objects of the list and mark-opened responses add it.
\<close>

record projection =
  p_id :: string
  p_notificationId :: jsval
  p_source :: string
  p_title :: string
  p_content :: string
  p_priority :: string
  p_type :: string
  p_severity :: string
  p_timestamp :: int
  p_read :: bool
  p_opened :: bool
  p_metadata :: metadata_obj
  p_trackingEnabled :: bool
  p_trackingCallbackUrl :: "string option"

record api_projection = projection +
  p_openedAt :: "int option"

datatype sse_event = Connected | NotificationEvent projection

definition sseData :: "notification \<Rightarrow> projection" where
  "sseData n =
     \<lparr>p_id = notificationId n, p_notificationId = sourceNotificationId n,
      p_source = source n, p_title = title n, p_content = content n,
      p_priority = priority n, p_type = ntype n, p_severity = severity n,
      p_timestamp = timestamp n, p_read = read n, p_opened = opened n,
      p_metadata = metadata n, p_trackingEnabled = trackingEnabled n,
      p_trackingCallbackUrl = trackingCallbackUrl n\<rparr>"

definition api_view :: "notification \<Rightarrow> api_projection" where
  "api_view n = projection.extend (sseData n) \<lparr>p_openedAt = openedAt n\<rparr>"

subsection \<open>Server state\<close>

text \<open>
  \<open>clients\<close> is the \<^verbatim>\<open>Map\<close> of the source, a response object being a connection number.
  \<open>db\<close> is the collection, oldest insertion first. \<open>sent\<close> is every \<^verbatim>\<open>write\<close> on an event
  stream so far, oldest first.
\<close>

record state =
  clients :: "string \<rightharpoonup> nat"
  db :: "notification list"
  sent :: "(nat \<times> sse_event) list"

definition initial_state :: state where
  "initial_state = \<lparr>clients = Map.empty, db = [], sent = []\<rparr>"

text \<open>The string of an optional field that the handler has already found truthy.\<close>

definition str_of :: "string option \<Rightarrow> string" where
  "str_of v = (case v of None \<Rightarrow> [] | Some s \<Rightarrow> s)"

section \<open>The notification store\<close>

text \<open>
  \<^verbatim>\<open>Notification.create\<close> validates the document against the schema (the \<^verbatim>\<open>required\<close>
  fields, the two \<^verbatim>\<open>enum\<close>s), then inserts it; the unique index on \<^verbatim>\<open>notificationId\<close>
  refuses a second document with the same value. A \<^verbatim>\<open>required\<close> string must be non-empty,
  a \<^verbatim>\<open>required\<close> \<^verbatim>\<open>Mixed\<close> must be neither \<^verbatim>\<open>undefined\<close> nor \<^verbatim>\<open>null\<close>. The flag
  \<open>fault\<close> stands for a failure of the database itself.
\<close>

datatype store_error = ValidationError | StoreUnavailable | DuplicateKey

definition schema_valid :: "notification \<Rightarrow> bool" where
  "schema_valid n \<longleftrightarrow>
     notificationId n \<noteq> [] \<and>
     sourceNotificationId n \<noteq> JUndefined \<and> sourceNotificationId n \<noteq> JNull \<and>
     userEmail n \<noteq> [] \<and> title n \<noteq> [] \<and> content n \<noteq> [] \<and>
     priority n \<in> set [''high'', ''medium'', ''low''] \<and>
     severity n \<in> set [''error'', ''warning'', ''info'']"

definition create :: "bool \<Rightarrow> notification \<Rightarrow> notification list \<Rightarrow> store_error + notification list" where
  "create fault n coll =
     (if \<not> schema_valid n then Inl ValidationError
      else if fault then Inl StoreUnavailable
      else if notificationId n \<in> set (map notificationId coll) then Inl DuplicateKey
      else Inr (coll @ [n]))"

text \<open>
  \<^verbatim>\<open>find(q).sort({ createdAt: -1 })\<close>: the matching documents, latest \<^verbatim>\<open>createdAt\<close> first.
\<close>

definition find_sorted :: "(notification \<Rightarrow> bool) \<Rightarrow> notification list \<Rightarrow> notification list" where
  "find_sorted q coll = sort_key (\<lambda>n. - createdAt n) (filter q coll)"

text \<open>\<^verbatim>\<open>findOne(q)\<close>: the first matching document.\<close>

definition findOne :: "(notification \<Rightarrow> bool) \<Rightarrow> notification list \<Rightarrow> notification option" where
  "findOne q coll = find q coll"

text \<open>
  A document keeps its place in the collection, since nothing deletes or reorders; the place
  stands for its \<^verbatim>\<open>_id\<close>. \<open>place q coll\<close> is the place of the document \<^verbatim>\<open>findOne(q)\<close>
  returns.
\<close>

fun place :: "(notification \<Rightarrow> bool) \<Rightarrow> notification list \<Rightarrow> nat" where
  "place q [] = 0"
| "place q (n # ns) = (if q n then 0 else Suc (place q ns))"

section \<open>The event stream: \<^verbatim>\<open>GET /api/events\<close>\<close>

definition pendingNotifications :: "string \<Rightarrow> notification list \<Rightarrow> notification list" where
  "pendingNotifications e coll = find_sorted (\<lambda>n. userEmail n = e \<and> opened n = False) coll"

datatype events_response = EventsNotAuthenticated | EventStream

text \<open>
  \<open>cookie\<close> is \<^verbatim>\<open>req.cookies.userEmail\<close>, \<open>ch\<close> the response object. The handshake is
  written, the channel registered, then the pending documents are written in order.
\<close>

definition events :: "state \<Rightarrow> string option \<Rightarrow> nat \<Rightarrow> state \<times> events_response" where
  "events s cookie ch =
     (if \<not> truthy_str cookie then (s, EventsNotAuthenticated)
      else
        let e = str_of cookie;
            s1 = s\<lparr>sent := sent s @ [(ch, Connected)]\<rparr>;
            s2 = s1\<lparr>clients := (clients s1)(e \<mapsto> ch)\<rparr>;
            pending = pendingNotifications e (db s2);
            s3 = s2\<lparr>sent := sent s2 @ map (\<lambda>n. (ch, NotificationEvent (sseData n))) pending\<rparr>
        in (s3, EventStream))"

text \<open>
  The \<^verbatim>\<open>close\<close> listener of the request that opened channel \<open>ch\<close> for \<open>e\<close>:
  \<^verbatim>\<open>clients.delete(email)\<close>.
\<close>

definition on_close :: "state \<Rightarrow> string \<Rightarrow> nat \<Rightarrow> state" where
  "on_close s e ch = s\<lparr>clients := (clients s)(e := None)\<rparr>"

section \<open>Bulk dispatch: \<^verbatim>\<open>POST /api/notifications/receive\<close>\<close>

text \<open>
  What the handler reads from outside while it processes the target at position \<open>i\<close>
  of the batch: the two clock readings, whether the database fails, whether the write on the
  stream throws.
\<close>

record env =
  timestamp_at :: "nat \<Rightarrow> int"
  created_at :: "nat \<Rightarrow> int"
  store_fault :: "nat \<Rightarrow> bool"
  write_fault :: "nat \<Rightarrow> bool"

datatype failure = CreateFailed store_error | WriteFailed

datatype failed_entry =
    MissingEmail jsval string
  | NotConnected string "jsnum option" "string option"
  | StoreOrSendFailed string "jsnum option" "string option" failure

datatype success_entry = Delivered string "jsnum option" "string option" string

record results =
  success :: "success_entry list"
  failed :: "failed_entry list"
  total :: nat

text \<open>
  The three responses: the 400 of the validation, the 200 with the results, and the 500 of the
  handler's outer \<^verbatim>\<open>catch\<close>.
\<close>

datatype receive_response = Rejected string | Processed results | ServerError

text \<open>\<^verbatim>\<open>${userId || email}\<close>, for the truthy email \<open>e\<close> of target \<open>t\<close>.\<close>

definition recipientKey :: "target \<Rightarrow> string \<Rightarrow> string" where
  "recipientKey t e =
     (case t_userId t of None \<Rightarrow> e | Some u \<Rightarrow> if u \<noteq> 0 then number_to_string u else e)"

text \<open>
  The document built for target \<open>t\<close> with truthy email \<open>e\<close>, with the schema's defaults
  for the fields the handler leaves out (\<^verbatim>\<open>openedAt\<close>, \<^verbatim>\<open>createdAt\<close>).
\<close>

definition userNotification :: "env \<Rightarrow> body \<Rightarrow> nat \<Rightarrow> target \<Rightarrow> string \<Rightarrow> notification" where
  "userNotification ev b i t e =
     \<lparr>notificationId = js_to_string (req_notificationId b) @ ''-'' @ recipientKey t e,
      sourceNotificationId = req_notificationId b,
      userEmail = e,
      userId = t_userId t,
      source = or_str (req_source b) ''PM_INTERFACE'',
      title = str_of (req_title b),
      content = str_of (req_content b),
      priority = or_str (req_priority b) ''medium'',
      ntype = or_str (req_type b) ''release_notes'',
      severity =
        (if req_priority b = Some ''high'' then ''error''
         else if req_priority b = Some ''medium'' then ''warning''
         else ''info''),
      read = False,
      opened = False,
      openedAt = None,
      metadata =
        \<lparr>md_fields = filter (\<lambda>kv. fst kv \<noteq> ''targetUser'') (req_metadata b), targetUser = t\<rparr>,
      trackingEnabled = truthy_bool (req_trackingEnabled b),
      trackingCallbackUrl = req_trackingCallbackUrl b,
      timestamp = timestamp_at ev i,
      createdAt = created_at ev i\<rparr>"

text \<open>One pass of the loop body, for the target at position \<open>i\<close>.\<close>

definition process_target :: "env \<Rightarrow> body \<Rightarrow> nat \<Rightarrow> target \<Rightarrow> state \<times> results \<Rightarrow> state \<times> results" where
  "process_target ev b i t sr =
     (let s = fst sr; r = snd sr in
      if \<not> truthy_str (t_email t) then
        (s, r\<lparr>failed := failed r @
              [MissingEmail (case t_userId t of None \<Rightarrow> JStr ''unknown''
                             | Some u \<Rightarrow> if u \<noteq> 0 then JNum u else JStr ''unknown'')
                            (or_str (t_name t) ''unknown'')]\<rparr>)
      else
        let e = str_of (t_email t); n = userNotification ev b i t e in
        case create (store_fault ev i) n (db s) of
          Inl err \<Rightarrow>
            (s, r\<lparr>failed := failed r @
                  [StoreOrSendFailed e (t_userId t) (t_name t) (CreateFailed err)]\<rparr>)
        | Inr coll \<Rightarrow>
            let s1 = s\<lparr>db := coll\<rparr> in
            (case clients s1 e of
               None \<Rightarrow> (s1, r\<lparr>failed := failed r @ [NotConnected e (t_userId t) (t_name t)]\<rparr>)
             | Some ch \<Rightarrow>
                 if write_fault ev i then
                   (s1, r\<lparr>failed := failed r @
                         [StoreOrSendFailed e (t_userId t) (t_name t) WriteFailed]\<rparr>)
                 else
                   (s1\<lparr>sent := sent s1 @ [(ch, NotificationEvent (sseData n))]\<rparr>,
                    r\<lparr>success := success r @
                         [Delivered e (t_userId t) (t_name t) (notificationId n)]\<rparr>)))"

text \<open>
  The \<^verbatim>\<open>for ... of\<close> loop over \<^verbatim>\<open>targetUsers\<close>, from position \<open>i\<close> on. The
  destructuring of a \<^verbatim>\<open>null\<close> element throws outside the \<^verbatim>\<open>try\<close> of the loop body: the loop
  is left with what was done so far and no results (\<open>None\<close>).
\<close>

fun process_targets :: "env \<Rightarrow> body \<Rightarrow> nat \<Rightarrow> target option list \<Rightarrow> state \<times> results \<Rightarrow> state \<times> results option" where
  "process_targets ev b i [] sr = (fst sr, Some (snd sr))"
| "process_targets ev b i (None # ts) sr = (fst sr, None)"
| "process_targets ev b i (Some t # ts) sr =
     process_targets ev b (Suc i) ts (process_target ev b i t sr)"

definition receive :: "env \<Rightarrow> state \<Rightarrow> body \<Rightarrow> state \<times> receive_response" where
  "receive ev s b =
     (case targetUsers b of
        None \<Rightarrow> (s, Rejected ''targetUsers array is required and cannot be empty'')
      | Some ts \<Rightarrow>
          if ts = [] then (s, Rejected ''targetUsers array is required and cannot be empty'')
          else if \<not> truthy_str (req_title b) \<or> \<not> truthy_str (req_content b) then
            (s, Rejected ''title and content are required'')
          else
            let out = process_targets ev b 0 ts
                        (s, \<lparr>success = [], failed = [], total = length ts\<rparr>)
            in case snd out of
                 None \<Rightarrow> (fst out, ServerError)
               | Some r \<Rightarrow> (fst out, Processed r))"

section \<open>Opening a notification: \<^verbatim>\<open>POST /api/notifications/mark-opened\<close>\<close>

record trackingPayload =
  tp_notificationId :: jsval
  tp_userId :: jsval
  tp_userEmail :: string
  tp_userName :: string
  tp_applicationId :: jsval
  tp_applicationName :: jsval
  tp_openedAt :: "int option"

definition md_get :: "metadata_obj \<Rightarrow> string \<Rightarrow> jsval" where
  "md_get m k = (case map_of (md_fields m) k of None \<Rightarrow> JUndefined | Some v \<Rightarrow> v)"

definition tracking_payload :: "notification \<Rightarrow> string \<Rightarrow> trackingPayload" where
  "tracking_payload n e =
     \<lparr>tp_notificationId = sourceNotificationId n,
      tp_userId =
        (case t_userId (targetUser (metadata n)) of None \<Rightarrow> JStr e
         | Some u \<Rightarrow> if u \<noteq> 0 then JNum u else JStr e),
      tp_userEmail = e,
      tp_userName = or_str (t_name (targetUser (metadata n))) e,
      tp_applicationId = md_get (metadata n) ''applicationId'',
      tp_applicationName =
        (if truthy (md_get (metadata n) ''applicationName'')
         then md_get (metadata n) ''applicationName'' else JStr ''ServiceHub''),
      tp_openedAt = openedAt n\<rparr>"

text \<open>
  What \<^verbatim>\<open>axios.post\<close> does when it is called: it returns a response with a status, or it
  throws (a network error, a status outside 2xx, the 5 second timeout).
\<close>

datatype callback_result = CallbackReturned nat | CallbackThrew string

datatype log_line =
    LogMarkedOpened string string
  | LogSendingCallback string
  | LogCallbackSent nat
  | LogCallbackFailed string

datatype mark_response =
    NotAuthenticated
  | IdRequired
  | NotFound
  | AlreadyOpened
  | MarkedOpened api_projection
  | MarkServerError

text \<open>
  The result of one call: the state after it, the response, the outbound calls it made
  (URL and payload) and the lines it logged after the transition.
\<close>

record mark_result =
  new_state :: state
  response :: mark_response
  outbound :: "(string \<times> trackingPayload) list"
  console :: "log_line list"

definition mark_transition :: "int \<Rightarrow> notification \<Rightarrow> notification" where
  "mark_transition now n = n\<lparr>read := True, opened := True, openedAt := Some now\<rparr>"

text \<open>
  The handler up to its \<^verbatim>\<open>findOne\<close>: \<open>cookie\<close> is \<^verbatim>\<open>req.cookies.userEmail\<close>, \<open>nid\<close>
  the body's \<^verbatim>\<open>notificationId\<close>. It answers at once (\<open>Inl\<close>), or goes on with the document
  it loaded and the place of that document (\<open>Inr\<close>).
\<close>

definition mark_find :: "state \<Rightarrow> string option \<Rightarrow> string option \<Rightarrow> mark_response + nat \<times> notification" where
  "mark_find s cookie nid =
     (if \<not> truthy_str cookie then Inl NotAuthenticated
      else if \<not> truthy_str nid then Inl IdRequired
      else
        let q = (\<lambda>n. notificationId n = str_of nid \<and> userEmail n = str_of cookie) in
        case findOne q (db s) of
          None \<Rightarrow> Inl NotFound
        | Some found \<Rightarrow>
            if opened found then Inl AlreadyOpened else Inr (place q (db s), found))"

text \<open>
  The handler from the assignments to \<^verbatim>\<open>read\<close>, \<^verbatim>\<open>opened\<close> and \<^verbatim>\<open>openedAt\<close> on, run in
  the state \<open>s\<close> the server is in by then: \<open>found\<close> is the document loaded before, \<open>i\<close> its place, \<open>e\<close> and \<open>nid\<close> the
  cookie and the id of the request, \<open>now\<close> the clock, \<open>cb\<close> what the outbound call does if
  the handler makes it. \<^verbatim>\<open>save\<close> writes the three modified fields to the stored document;
  the callback and the response are built from the loaded one. A \<^verbatim>\<open>save\<close> that finds no
  stored document throws, and the outer \<^verbatim>\<open>catch\<close> answers 500.
\<close>

definition mark_save :: "state \<Rightarrow> string \<Rightarrow> string \<Rightarrow> nat \<Rightarrow> notification \<Rightarrow> int \<Rightarrow> callback_result \<Rightarrow> mark_result" where
  "mark_save s e nid i found now cb =
     (if \<not> i < length (db s) then
        \<lparr>new_state = s, response = MarkServerError, outbound = [], console = []\<rparr>
      else
        let n = mark_transition now found;
            s1 = s\<lparr>db := (db s)[i := mark_transition now (db s ! i)]\<rparr>;
            marked = [LogMarkedOpened nid e]
        in
        if trackingEnabled n \<and> truthy_str (trackingCallbackUrl n) then
          let url = str_of (trackingCallbackUrl n) in
          \<lparr>new_state = s1, response = MarkedOpened (api_view n),
           outbound = [(url, tracking_payload n e)],
           console = marked @ [LogSendingCallback url] @
             (case cb of
                CallbackReturned status \<Rightarrow> [LogCallbackSent status]
              | CallbackThrew msg \<Rightarrow> [LogCallbackFailed msg])\<rparr>
        else
          \<lparr>new_state = s1, response = MarkedOpened (api_view n),
           outbound = [], console = marked\<rparr>)"

text \<open>A call of the handler during which no other request takes a step.\<close>

definition mark_opened :: "state \<Rightarrow> string option \<Rightarrow> string option \<Rightarrow> int \<Rightarrow> callback_result \<Rightarrow> mark_result" where
  "mark_opened s cookie nid now cb =
     (case mark_find s cookie nid of
        Inl resp \<Rightarrow> \<lparr>new_state = s, response = resp, outbound = [], console = []\<rparr>
      | Inr loaded \<Rightarrow> mark_save s (str_of cookie) (str_of nid) (fst loaded) (snd loaded) now cb)"

section \<open>Listing: \<^verbatim>\<open>GET /api/notifications\<close>\<close>

record listing =
  notifications :: "api_projection list"
  count :: nat
  unreadCount :: nat

datatype list_response = ListNotAuthenticated | Listed listing

definition get_notifications :: "state \<Rightarrow> string option \<Rightarrow> list_response" where
  "get_notifications s cookie =
     (if \<not> truthy_str cookie then ListNotAuthenticated
      else
        let e = str_of cookie;
            transformedNotifications = map api_view (find_sorted (\<lambda>n. userEmail n = e) (db s))
        in Listed \<lparr>notifications = transformedNotifications,
                   count = length transformedNotifications,
                   unreadCount = length (filter (\<lambda>n. \<not> p_read n) transformedNotifications)\<rparr>)"

section \<open>Runs of the server\<close>

text \<open>
  The states the server can be in. It starts with no client and an empty collection. A
  connect, a disconnect, a dispatch and a mark-opened call that nothing interrupts are one
  step each. The loop body of a dispatch is a step of its own, so that other requests can run
  between two targets and a batch can stop halfway; so is the second half of a mark-opened
  call, which saves a document that the call loaded in some earlier state.
\<close>

inductive reachable :: "state \<Rightarrow> bool" where
  start: "reachable initial_state"
| connect_step: "reachable s \<Longrightarrow> reachable (fst (events s cookie ch))"
| close_step: "reachable s \<Longrightarrow> reachable (on_close s e ch)"
| dispatch_step: "reachable s \<Longrightarrow> reachable (fst (receive ev s b))"
| open_step: "reachable s \<Longrightarrow> reachable (new_state (mark_opened s cookie nid now cb))"
| target_step: "reachable s \<Longrightarrow> reachable (fst (process_target ev b i t (s, r)))"
| save_step:
    "reachable s0 \<Longrightarrow> mark_find s0 cookie nid = Inr (i, found) \<Longrightarrow> reachable s \<Longrightarrow>
     reachable (new_state (mark_save s (str_of cookie) (str_of nid) i found now cb))"

section \<open>Example inputs\<close>

text \<open>
  A clock that advances by one per target and no fault; a target without a name; a batch
  with source id \<^verbatim>\<open>"rel-1"\<close>, title, content, tracking switched on and the given priority
  and targets.
\<close>

definition example_env :: env where
  "example_env =
     \<lparr>timestamp_at = (\<lambda>i. 1000 + int i), created_at = (\<lambda>i. 1000 + int i),
      store_fault = (\<lambda>i. False), write_fault = (\<lambda>i. False)\<rparr>"

definition example_target :: "string option \<Rightarrow> jsnum option \<Rightarrow> target" where
  "example_target e u = \<lparr>t_email = e, t_userId = u, t_name = None\<rparr>"

definition example_batch :: "string option \<Rightarrow> target list \<Rightarrow> body" where
  "example_batch p ts =
     \<lparr>req_source = None, req_notificationId = JStr ''rel-1'', req_title = Some ''T'',
      req_content = Some ''C'', req_priority = p, req_type = None,
      targetUsers = Some (map Some ts),
      req_metadata = [], req_trackingEnabled = Some True,
      req_trackingCallbackUrl = Some ''http://pm/opened''\<rparr>"

text \<open>The server after \<^verbatim>\<open>a@x\<close> opened an event stream on connection 1.\<close>

definition example_connected :: state where
  "example_connected = fst (events initial_state (Some ''a@x'') 1)"

text \<open>The server after one notification for \<^verbatim>\<open>a@x\<close> (user 7) was stored, nobody connected.\<close>

definition example_stored :: state where
  "example_stored =
     fst (receive example_env initial_state
            (example_batch None [example_target (Some ''a@x'') (Some 7)]))"

text \<open>
  The server after a batch of four targets, three of them \<^verbatim>\<open>a@x\<close> under different keys,
  was stored with nobody connected; and the same server after \<^verbatim>\<open>a@x\<close> opened the second
  of them while the callback timed out.
\<close>

definition example_backlog :: state where
  "example_backlog =
     fst (receive example_env initial_state
            (example_batch None
               [example_target (Some ''a@x'') (Some 7), example_target (Some ''a@x'') None,
                example_target (Some ''a@x'') (Some 8), example_target (Some ''b@x'') None]))"

definition example_opened :: state where
  "example_opened =
     new_state (mark_opened example_backlog (Some ''a@x'') (Some ''rel-1-a@x'') 2000
                  (CallbackThrew ''timeout''))"

text \<open>The definitions a run on a concrete input unfolds.\<close>

lemmas run_defs =
  receive_def process_target_def create_def schema_valid_def userNotification_def
  recipientKey_def events_def pendingNotifications_def find_sorted_def on_close_def
  truthy_str_def truthy_bool_def str_of_def or_str_def Let_def
  number_to_string_def nat_digits.simps digit_char_def
  mark_opened_def mark_find_def mark_save_def mark_transition_def findOne_def
  get_notifications_def api_view_def sseData_def projection.extend_def
  example_env_def example_target_def example_batch_def example_connected_def
  example_stored_def example_backlog_def example_opened_def initial_state_def

section \<open>Dispatch: every target gets one outcome\<close>











section \<open>Dispatch: validation\<close>



section \<open>Priority and severity of a created document\<close>

text \<open>
  Claim C2. The document built for a target takes its \<^verbatim>\<open>priority\<close> from the batch, with
  \<^verbatim>\<open>"medium"\<close> when the batch has none, but computes its \<^verbatim>\<open>severity\<close> from the batch's
  field as it came: a batch without priority gives priority \<^verbatim>\<open>"medium"\<close> and severity
  \<^verbatim>\<open>"info"\<close>, where a batch that says \<^verbatim>\<open>"medium"\<close> gives severity \<^verbatim>\<open>"warning"\<close>.
\<close>

theorem C2_omitted_priority_severity:
  "priority (userNotification ev (b\<lparr>req_priority := None\<rparr>) i t e) = ''medium'' \<and>
   severity (userNotification ev (b\<lparr>req_priority := None\<rparr>) i t e) = ''info'' \<and>
   priority (userNotification ev (b\<lparr>req_priority := Some ''medium''\<rparr>) i t e) = ''medium'' \<and>
   severity (userNotification ev (b\<lparr>req_priority := Some ''medium''\<rparr>) i t e) = ''warning''"
  by (simp add: userNotification_def or_str_def)

text \<open>The same through the whole handler: what is stored for one target.\<close>

lemma dispatch_without_priority_example:
  "map (\<lambda>n. (priority n, severity n))
     (db (fst (receive example_env initial_state
        (example_batch None [example_target (Some ''a@x'') (Some 7)])))) =
     [(''medium'', ''info'')] \<and>
   map (\<lambda>n. (priority n, severity n))
     (db (fst (receive example_env initial_state
        (example_batch (Some ''medium'') [example_target (Some ''a@x'') (Some 7)])))) =
     [(''medium'', ''warning'')]"
  by (simp add: run_defs)

section \<open>Invariants of the collection\<close>

lemma create_Inr:
  assumes "create fault n coll = Inr coll'"
  shows "coll' = coll @ [n]" and "notificationId n \<notin> set (map notificationId coll)"
    and "schema_valid n" and "\<not> fault"
  using assms by (auto simp add: create_def split: if_splits)

lemma process_target_db:
  "db (fst (process_target ev b i t sr)) = db (fst sr) \<or>
   (db (fst (process_target ev b i t sr)) =
      db (fst sr) @ [userNotification ev b i t (str_of (t_email t))] \<and>
    notificationId (userNotification ev b i t (str_of (t_email t))) \<notin>
      set (map notificationId (db (fst sr))))"
  by (auto simp add: process_target_def Let_def dest: create_Inr split: sum.splits option.splits)

lemma userNotification_unread:
  "read (userNotification ev b i t e) = False \<and> opened (userNotification ev b i t e) = False"
  by (simp add: userNotification_def)

lemma process_target_inv:
  assumes "distinct (map notificationId (db (fst sr)))"
    and "\<forall>n\<in>set (db (fst sr)). read n = opened n"
  shows "distinct (map notificationId (db (fst (process_target ev b i t sr)))) \<and>
         (\<forall>n\<in>set (db (fst (process_target ev b i t sr))). read n = opened n)"
  using assms process_target_db [of ev b i t sr]
    userNotification_unread [of ev b i t "str_of (t_email t)"]
  by auto

lemma process_targets_inv:
  assumes "distinct (map notificationId (db (fst sr)))"
    and "\<forall>n\<in>set (db (fst sr)). read n = opened n"
  shows "distinct (map notificationId (db (fst (process_targets ev b i xs sr)))) \<and>
         (\<forall>n\<in>set (db (fst (process_targets ev b i xs sr))). read n = opened n)"
  using assms
proof (induction xs arbitrary: i sr)
  case Nil
  then show ?case by simp
next
  case (Cons x xs)
  show ?case
  proof (cases x)
    case None
    with Cons.prems show ?thesis by simp
  next
    case (Some t)
    have step: "distinct (map notificationId (db (fst (process_target ev b i t sr))))"
      "\<forall>n\<in>set (db (fst (process_target ev b i t sr))). read n = opened n"
      using process_target_inv [OF Cons.prems, of ev b i t] by blast+
    show ?thesis using Cons.IH [OF step, of "Suc i"] Some by simp
  qed
qed

lemma receive_db:
  "db (fst (receive ev s b)) = db s \<or>
   (\<exists>xs. db (fst (receive ev s b)) =
      db (fst (process_targets ev b 0 xs (s, \<lparr>success = [], failed = [], total = length xs\<rparr>))))"
  by (auto simp add: receive_def Let_def split: option.splits)

lemma receive_inv:
  assumes "distinct (map notificationId (db s))" and "\<forall>n\<in>set (db s). read n = opened n"
  shows "distinct (map notificationId (db (fst (receive ev s b)))) \<and>
         (\<forall>n\<in>set (db (fst (receive ev s b))). read n = opened n)"
proof -
  have "distinct (map notificationId (db (fst (process_targets ev b 0 xs (s, r))))) \<and>
         (\<forall>n\<in>set (db (fst (process_targets ev b 0 xs (s, r)))). read n = opened n)" for xs r
    using assms by (intro process_targets_inv) simp_all
  then show ?thesis using assms receive_db [of ev s b] by auto
qed

lemma saved_ids:
  "map notificationId (coll[i := mark_transition now (coll ! i)]) = map notificationId coll"
proof (cases "i < length coll")
  case True
  then show ?thesis
    by (simp add: map_update mark_transition_def list_update_same_conv)
next
  case False
  then have "length coll \<le> i" by simp
  then show ?thesis by (simp only: list_update_beyond)
qed

lemma saved_read_opened:
  assumes "\<forall>n\<in>set coll. read n = opened n"
  shows "\<forall>n\<in>set (coll[i := mark_transition now (coll ! i)]). read n = opened n"
proof
  fix n assume "n \<in> set (coll[i := mark_transition now (coll ! i)])"
  then have "n = mark_transition now (coll ! i) \<or> n \<in> set coll"
    using set_update_subset_insert [of coll i "mark_transition now (coll ! i)"] by auto
  with assms show "read n = opened n" by (auto simp add: mark_transition_def)
qed

lemma mark_save_db:
  "db (new_state (mark_save s e nid i found now cb)) = db s \<or>
   db (new_state (mark_save s e nid i found now cb)) = (db s)[i := mark_transition now (db s ! i)]"
  by (simp add: mark_save_def Let_def)

lemma mark_save_inv:
  assumes "distinct (map notificationId (db s))" and "\<forall>n\<in>set (db s). read n = opened n"
  shows "distinct (map notificationId (db (new_state (mark_save s e nid i found now cb)))) \<and>
         (\<forall>n\<in>set (db (new_state (mark_save s e nid i found now cb))). read n = opened n)"
  using assms mark_save_db [of s e nid i found now cb] saved_read_opened [OF assms(2), of i now]
  by (auto simp add: saved_ids)

lemma mark_opened_inv:
  assumes "distinct (map notificationId (db s))" and "\<forall>n\<in>set (db s). read n = opened n"
  shows "distinct (map notificationId (db (new_state (mark_opened s cookie nid now cb)))) \<and>
         (\<forall>n\<in>set (db (new_state (mark_opened s cookie nid now cb))). read n = opened n)"
  using assms mark_save_inv [OF assms]
  by (simp add: mark_opened_def split: sum.splits)

lemma events_db: "db (fst (events s cookie ch)) = db s"
  by (simp add: events_def Let_def)

lemma on_close_db: "db (on_close s e ch) = db s"
  by (simp add: on_close_def)

lemma reachable_inv:
  "reachable s \<Longrightarrow>
     distinct (map notificationId (db s)) \<and> (\<forall>n\<in>set (db s). read n = opened n)"
proof (induction rule: reachable.induct)
  case start
  then show ?case by (simp add: initial_state_def)
next
  case (connect_step s cookie ch)
  then show ?case by (simp add: events_db)
next
  case (close_step s e ch)
  then show ?case by (simp add: on_close_db)
next
  case (dispatch_step s ev b)
  then show ?case using receive_inv by blast
next
  case (open_step s cookie nid now cb)
  then show ?case using mark_opened_inv by blast
next
  case (target_step s ev b i t r)
  then show ?case using process_target_inv [of "(s, r)" ev b i t] by simp
next
  case (save_step s0 cookie nid i found s now cb)
  then show ?case using mark_save_inv by blast
qed

lemma reachable_example_opened: "reachable example_opened"
  unfolding example_opened_def example_backlog_def
  by (intro reachable.open_step reachable.dispatch_step reachable.start)

section \<open>One document per derived id\<close>

lemma distinct_at_most_one:
  "distinct (map f xs) \<Longrightarrow> length (filter (\<lambda>x. f x = k) xs) \<le> 1"
proof (induction xs)
  case Nil
  then show ?case by simp
next
  case (Cons x xs)
  show ?case
  proof (cases "f x = k")
    case True
    from Cons.prems have "f x \<notin> f ` set xs" by simp
    with True have "\<forall>y\<in>set xs. f y \<noteq> k" by blast
    then have "filter (\<lambda>x. f x = k) xs = []"
      by (simp add: filter_empty_conv)
    with True show ?thesis by simp
  next
    case False
    with Cons show ?thesis by simp
  qed
qed

text \<open>
  Claim C6, as the code has it. The id of a document is a function of the batch's
  notification id and of the recipient key (the \<^verbatim>\<open>userId\<close> when it is truthy, the email
  otherwise): two targets that agree on both get the same id. \<^verbatim>\<open>create\<close> refuses a document
  whose id is in the collection (with the duplicate-key error when the document is valid and
  the database is up), and in every state the server reaches at most one document has a given
  id, whatever batches were dispatched, repeated or interrupted before.
\<close>

theorem C6_one_record_per_recipient_key:
  "(req_notificationId b1 = req_notificationId b2 \<and> recipientKey t1 e1 = recipientKey t2 e2 \<longrightarrow>
      notificationId (userNotification ev1 b1 i1 t1 e1) =
      notificationId (userNotification ev2 b2 i2 t2 e2)) \<and>
   (notificationId n \<in> set (map notificationId coll) \<longrightarrow> (\<exists>err. create fault n coll = Inl err)) \<and>
   (notificationId n \<in> set (map notificationId coll) \<and> schema_valid n \<and> \<not> fault \<longrightarrow>
      create fault n coll = Inl DuplicateKey) \<and>
   (reachable s \<longrightarrow> length (filter (\<lambda>n. notificationId n = rid) (db s)) \<le> 1)"
proof -
  have "length (filter (\<lambda>n. notificationId n = rid) (db s)) \<le> 1" if "reachable s"
    using reachable_inv [OF that] distinct_at_most_one [of notificationId "db s" rid] by blast
  then show ?thesis by (auto simp add: userNotification_def create_def)
qed

text \<open>
  The theorem at a retry: the batch that produced \<open>example_stored\<close> is dispatched again; the
  second create is refused and the collection still holds one document with that id.
\<close>

theorem C6_one_record_per_recipient_key_witness:
  "reachable (fst (receive example_env example_stored
       (example_batch None [example_target (Some ''a@x'') (Some 7)]))) \<and>
   snd (receive example_env example_stored
       (example_batch None [example_target (Some ''a@x'') (Some 7)])) =
     Processed \<lparr>success = [],
        failed = [StoreOrSendFailed ''a@x'' (Some 7) None (CreateFailed DuplicateKey)],
        total = 1\<rparr> \<and>
   map notificationId (db (fst (receive example_env example_stored
       (example_batch None [example_target (Some ''a@x'') (Some 7)])))) = [''rel-1-7''] \<and>
   length (filter (\<lambda>n. notificationId n = ''rel-1-7'')
     (db (fst (receive example_env example_stored
       (example_batch None [example_target (Some ''a@x'') (Some 7)]))))) \<le> 1"
proof -
  let ?s = "fst (receive example_env example_stored
       (example_batch None [example_target (Some ''a@x'') (Some 7)]))"
  have r: "reachable ?s"
    unfolding example_stored_def by (intro reachable.dispatch_step reachable.start)
  have run: "snd (receive example_env example_stored
       (example_batch None [example_target (Some ''a@x'') (Some 7)])) =
     Processed \<lparr>success = [],
        failed = [StoreOrSendFailed ''a@x'' (Some 7) None (CreateFailed DuplicateKey)],
        total = 1\<rparr>"
    "map notificationId (db ?s) = [''rel-1-7'']"
    by (simp_all add: run_defs)
  from C6_one_record_per_recipient_key [where s = ?s and rid = "''rel-1-7''"] r
  have "length (filter (\<lambda>n. notificationId n = ''rel-1-7'') (db ?s)) \<le> 1"
    by blast
  with r run show ?thesis by simp
qed

text \<open>
  Claim C6 as stated fails: one batch with two targets of the same email \<^verbatim>\<open>a@x\<close> and the
  user ids 1 and 2 stores two documents for the pair (\<^verbatim>\<open>"rel-1"\<close>, \<^verbatim>\<open>a@x\<close>).
\<close>

theorem C6_same_identity_two_records:
  "length (filter (\<lambda>n. sourceNotificationId n = JStr ''rel-1'' \<and> userEmail n = ''a@x'')
     (db (fst (receive example_env initial_state
        (example_batch None
           [example_target (Some ''a@x'') (Some 1), example_target (Some ''a@x'') (Some 2)]))))) = 2"
  by (simp add: run_defs)

section \<open>Which key the id is derived from\<close>

lemma schema_valid_userNotification:
  "schema_valid (userNotification ev b i t e) \<longleftrightarrow>
     req_notificationId b \<noteq> JUndefined \<and> req_notificationId b \<noteq> JNull \<and> e \<noteq> [] \<and>
     str_of (req_title b) \<noteq> [] \<and> str_of (req_content b) \<noteq> [] \<and>
     or_str (req_priority b) ''medium'' \<in> set [''high'', ''medium'', ''low'']"
  by (auto simp add: schema_valid_def userNotification_def)

lemma truthy_str_of: "truthy_str v \<longleftrightarrow> str_of v \<noteq> []"
  by (simp add: truthy_str_def str_of_def split: option.splits)

lemma receive_two:
  assumes "targetUsers b = Some [Some t1, Some t2]"
    and "truthy_str (req_title b)" and "truthy_str (req_content b)"
  shows "receive ev s b =
     (let sr = process_target ev b 1 t2
                 (process_target ev b 0 t1
                    (s, \<lparr>success = [], failed = [], total = length [t1, t2]\<rparr>))
      in (fst sr, Processed (snd sr)))"
  using assms by (simp add: receive_def Let_def)

lemma process_target_stored:
  assumes "truthy_str (t_email t)"
    and "schema_valid (userNotification ev b i t (str_of (t_email t)))"
    and "\<not> store_fault ev i"
    and "notificationId (userNotification ev b i t (str_of (t_email t))) \<notin>
           set (map notificationId (db s))"
  shows "db (fst (process_target ev b i t (s, r))) =
           db s @ [userNotification ev b i t (str_of (t_email t))]"
  using assms by (auto simp add: process_target_def create_def Let_def split: option.splits)

lemma process_target_refused:
  assumes "truthy_str (t_email t)"
    and "notificationId (userNotification ev b i t (str_of (t_email t))) \<in>
           set (map notificationId (db s))"
  shows "\<exists>err. process_target ev b i t (s, r) =
     (s, r\<lparr>failed := failed r @
        [StoreOrSendFailed (str_of (t_email t)) (t_userId t) (t_name t) (CreateFailed err)]\<rparr>)"
  using assms by (auto simp add: process_target_def create_def Let_def)

text \<open>
  Claim C10, as the code has it. The id of a document is the batch's notification id, a dash,
  and the text of the target's user id when that is present and not 0, the email otherwise.
  Take a batch that passes validation and whose documents pass the schema, a database that is
  up, and a user id \<open>u\<close> that is not 0. Of two targets with the same \<open>u\<close>, the first of
  them new to the collection, only the first is stored, whatever the two emails, and the
  second ends the \<open>failed\<close> list with the store's error. And one email sent with \<open>u\<close> and
  without a user id is stored twice, under two different ids, when the email is not the text
  of \<open>u\<close>.
\<close>

theorem C10_recipient_key_collisions:
  fixes u :: jsnum and ea eb :: string and na nb :: "string option"
    and ev :: env and b :: body and s :: state
  defines "ta \<equiv> \<lparr>t_email = Some ea, t_userId = Some u, t_name = na\<rparr>"
    and "tb \<equiv> \<lparr>t_email = Some eb, t_userId = Some u, t_name = nb\<rparr>"
    and "tc \<equiv> \<lparr>t_email = Some ea, t_userId = None, t_name = nb\<rparr>"
  assumes u: "u \<noteq> 0" and ea: "ea \<noteq> []" and eb: "eb \<noteq> []"
    and title: "truthy_str (req_title b)" and content: "truthy_str (req_content b)"
    and src: "req_notificationId b \<noteq> JUndefined" "req_notificationId b \<noteq> JNull"
    and prio: "or_str (req_priority b) ''medium'' \<in> set [''high'', ''medium'', ''low'']"
    and up: "\<not> store_fault ev 0"
    and new: "notificationId (userNotification ev b 0 ta ea) \<notin> set (map notificationId (db s))"
  shows "(\<forall>i t e. notificationId (userNotification ev b i t e) =
            js_to_string (req_notificationId b) @ ''-'' @
              (case t_userId t of None \<Rightarrow> e
               | Some v \<Rightarrow> if v = 0 then e else number_to_string v)) \<and>
         notificationId (userNotification ev b 0 ta ea) =
           js_to_string (req_notificationId b) @ ''-'' @ number_to_string u \<and>
         notificationId (userNotification ev b 1 tb eb) =
           js_to_string (req_notificationId b) @ ''-'' @ number_to_string u \<and>
         notificationId (userNotification ev b 1 tc ea) =
           js_to_string (req_notificationId b) @ ''-'' @ ea \<and>
         (targetUsers b = Some [Some ta, Some tb] \<longrightarrow>
            db (fst (receive ev s b)) = db s @ [userNotification ev b 0 ta ea] \<and>
            (\<exists>r err. snd (receive ev s b) = Processed r \<and>
               last (failed r) = StoreOrSendFailed eb (Some u) nb (CreateFailed err))) \<and>
         (targetUsers b = Some [Some ta, Some tc] \<and> ea \<noteq> number_to_string u \<and>
          \<not> store_fault ev 1 \<and>
          notificationId (userNotification ev b 1 tc ea) \<notin> set (map notificationId (db s)) \<longrightarrow>
            db (fst (receive ev s b)) =
              db s @ [userNotification ev b 0 ta ea, userNotification ev b 1 tc ea] \<and>
            notificationId (userNotification ev b 0 ta ea) \<noteq>
              notificationId (userNotification ev b 1 tc ea))"
proof -
  let ?na = "userNotification ev b 0 ta ea"
  let ?nc = "userNotification ev b 1 tc ea"
  have formula: "\<forall>i t e. notificationId (userNotification ev b i t e) =
      js_to_string (req_notificationId b) @ ''-'' @
        (case t_userId t of None \<Rightarrow> e | Some v \<Rightarrow> if v = 0 then e else number_to_string v)"
    by (simp add: userNotification_def recipientKey_def split: option.splits)
  have ida: "notificationId ?na = js_to_string (req_notificationId b) @ ''-'' @ number_to_string u"
    using u by (simp add: userNotification_def recipientKey_def ta_def)
  have idb: "notificationId (userNotification ev b 1 tb eb) =
      js_to_string (req_notificationId b) @ ''-'' @ number_to_string u"
    using u by (simp add: userNotification_def recipientKey_def tb_def)
  have idc: "notificationId ?nc = js_to_string (req_notificationId b) @ ''-'' @ ea"
    by (simp add: userNotification_def recipientKey_def tc_def)
  have em: "str_of (t_email ta) = ea" "str_of (t_email tb) = eb" "str_of (t_email tc) = ea"
    "truthy_str (t_email ta)" "truthy_str (t_email tb)" "truthy_str (t_email tc)"
    using ea eb by (simp_all add: ta_def tb_def tc_def str_of_def truthy_str_def)
  have valid: "schema_valid (userNotification ev b i t e)" if "e \<noteq> []" for i t e
    using that title content src prio by (simp add: schema_valid_userNotification truthy_str_of)
  have first: "db (fst (process_target ev b 0 ta (s, r))) = db s @ [?na]" for r
    using process_target_stored [of ta ev b 0 s r] em valid [OF ea] up new by simp
  have collide: "db (fst (receive ev s b)) = db s @ [?na] \<and>
      (\<exists>r err. snd (receive ev s b) = Processed r \<and>
         last (failed r) = StoreOrSendFailed eb (Some u) nb (CreateFailed err))"
    if b: "targetUsers b = Some [Some ta, Some tb]"
  proof -
    let ?sr = "process_target ev b 0 ta (s, \<lparr>success = [], failed = [], total = length [ta, tb]\<rparr>)"
    have "notificationId (userNotification ev b 1 tb (str_of (t_email tb))) \<in>
        set (map notificationId (db (fst ?sr)))"
      using first ida idb em by simp
    from process_target_refused [OF em(5) this, of "snd ?sr"]
    obtain err where "process_target ev b 1 tb ?sr =
        (fst ?sr, (snd ?sr)\<lparr>failed := failed (snd ?sr) @
           [StoreOrSendFailed (str_of (t_email tb)) (t_userId tb) (t_name tb) (CreateFailed err)]\<rparr>)"
      by auto
    then show ?thesis
      using receive_two [OF b title content, of ev s] first em
      by (simp add: Let_def tb_def)
  qed
  have apart: "db (fst (receive ev s b)) = db s @ [?na, ?nc] \<and>
      notificationId ?na \<noteq> notificationId ?nc"
    if b: "targetUsers b = Some [Some ta, Some tc]" and ne: "ea \<noteq> number_to_string u"
      and up1: "\<not> store_fault ev 1"
      and new1: "notificationId ?nc \<notin> set (map notificationId (db s))"
  proof -
    let ?sr = "process_target ev b 0 ta (s, \<lparr>success = [], failed = [], total = length [ta, tc]\<rparr>)"
    have differ: "notificationId ?na \<noteq> notificationId ?nc"
      using ne ida idc by simp
    have "notificationId (userNotification ev b 1 tc (str_of (t_email tc))) \<notin>
        set (map notificationId (db (fst ?sr)))"
      using first differ new1 em by auto
    from process_target_stored [of tc ev b 1 "fst ?sr" "snd ?sr"] this em valid [OF ea] up1
    have "db (fst (process_target ev b 1 tc ?sr)) = db (fst ?sr) @ [?nc]"
      by simp
    then show ?thesis
      using receive_two [OF b title content, of ev s] first differ
      by (simp add: Let_def)
  qed
  show ?thesis using formula ida idb idc collide apart by blast
qed

text \<open>
  The theorem at user id 7: \<^verbatim>\<open>a@x\<close> and \<^verbatim>\<open>b@x\<close> with that id collide, and \<^verbatim>\<open>a@x\<close>
  with and without it is stored twice.
\<close>

theorem C10_recipient_key_collisions_witness:
  "db (fst (receive example_env initial_state
       (example_batch None
          [example_target (Some ''a@x'') (Some 7), example_target (Some ''b@x'') (Some 7)]))) =
     [userNotification example_env
        (example_batch None
           [example_target (Some ''a@x'') (Some 7), example_target (Some ''b@x'') (Some 7)])
        0 (example_target (Some ''a@x'') (Some 7)) ''a@x''] \<and>
   (\<exists>r err. snd (receive example_env initial_state
       (example_batch None
          [example_target (Some ''a@x'') (Some 7), example_target (Some ''b@x'') (Some 7)])) =
       Processed r \<and>
     last (failed r) = StoreOrSendFailed ''b@x'' (Some 7) None (CreateFailed err)) \<and>
   map notificationId (db (fst (receive example_env initial_state
       (example_batch None
          [example_target (Some ''a@x'') (Some 7), example_target (Some ''a@x'') None])))) =
     [''rel-1-7'', ''rel-1-a@x'']"
proof -
  let ?b = "example_batch None
     [example_target (Some ''a@x'') (Some 7), example_target (Some ''b@x'') (Some 7)]"
  have h: "(7::jsnum) \<noteq> 0" "''a@x'' \<noteq> []" "''b@x'' \<noteq> []"
    "truthy_str (req_title ?b)" "truthy_str (req_content ?b)"
    "req_notificationId ?b \<noteq> JUndefined" "req_notificationId ?b \<noteq> JNull"
    "or_str (req_priority ?b) ''medium'' \<in> set [''high'', ''medium'', ''low'']"
    "\<not> store_fault example_env 0"
    "notificationId (userNotification example_env ?b 0
        \<lparr>t_email = Some ''a@x'', t_userId = Some 7, t_name = None\<rparr> ''a@x'') \<notin>
      set (map notificationId (db initial_state))"
    by (simp_all add: example_batch_def example_env_def truthy_str_def or_str_def initial_state_def)
  have b: "targetUsers ?b =
     Some [Some \<lparr>t_email = Some ''a@x'', t_userId = Some 7, t_name = None\<rparr>,
           Some \<lparr>t_email = Some ''b@x'', t_userId = Some 7, t_name = None\<rparr>]"
    by (simp add: example_batch_def example_target_def)
  have run: "map notificationId (db (fst (receive example_env initial_state
       (example_batch None
          [example_target (Some ''a@x'') (Some 7), example_target (Some ''a@x'') None])))) =
     [''rel-1-7'', ''rel-1-a@x'']"
    by (simp add: run_defs)
  from C10_recipient_key_collisions [OF h, where nb = None] b run
  show ?thesis by (simp add: initial_state_def example_target_def)
qed

text \<open>
  Claim C10 as stated fails twice. At user id 0, which is present: two targets with that user
  id and the emails \<^verbatim>\<open>a@x\<close> and \<^verbatim>\<open>b@x\<close> are both stored, under ids that end in their
  emails. And at the email \<^verbatim>\<open>"7"\<close>: sent with user id 7 and without user id it gives one id
  twice, and only the first document is stored.
\<close>

theorem C10_falsy_user_id_and_numeric_email:
  "map notificationId
     (db (fst (receive example_env initial_state
        (example_batch None
           [example_target (Some ''a@x'') (Some 0), example_target (Some ''b@x'') (Some 0)])))) =
   [''rel-1-a@x'', ''rel-1-b@x''] \<and>
   map (\<lambda>n. (notificationId n, userId n))
     (db (fst (receive example_env initial_state
        (example_batch None
           [example_target (Some ''7'') (Some 7), example_target (Some ''7'') None])))) =
   [(''rel-1-7'', Some 7)]"
  by (simp add: run_defs)

section \<open>Opening a notification twice\<close>

lemma find_place:
  "find q xs = Some x \<Longrightarrow> place q xs < length xs \<and> xs ! place q xs = x"
  by (induction xs) (auto split: if_splits)

lemma find_update_place:
  "find q xs = Some x \<Longrightarrow> q y \<Longrightarrow> find q (xs[place q xs := y]) = Some y"
  by (induction xs) (auto split: if_splits)

lemma mark_find_Inr:
  "mark_find s cookie nid = Inr (i, found) \<longleftrightarrow>
     truthy_str cookie \<and> truthy_str nid \<and>
     findOne (\<lambda>n. notificationId n = str_of nid \<and> userEmail n = str_of cookie) (db s) = Some found \<and>
     \<not> opened found \<and>
     i = place (\<lambda>n. notificationId n = str_of nid \<and> userEmail n = str_of cookie) (db s)"
  by (auto simp add: mark_find_def Let_def split: option.splits)

lemma findOne_after_transition:
  assumes "findOne (\<lambda>n. notificationId n = i \<and> userEmail n = e) coll = Some found"
  shows "findOne (\<lambda>n. notificationId n = i \<and> userEmail n = e)
     (coll[place (\<lambda>n. notificationId n = i \<and> userEmail n = e) coll :=
        mark_transition now (coll ! place (\<lambda>n. notificationId n = i \<and> userEmail n = e) coll)]) =
   Some (mark_transition now found)"
proof -
  let ?q = "\<lambda>n. notificationId n = i \<and> userEmail n = e"
  from assms have f: "find ?q coll = Some found" by (simp add: findOne_def)
  then have "?q found" by (auto simp add: find_Some_iff)
  then have "?q (mark_transition now found)" by (simp add: mark_transition_def)
  with f have "find ?q (coll[place ?q coll := mark_transition now found]) =
      Some (mark_transition now found)"
    by (rule find_update_place)
  with find_place [OF f] show ?thesis by (simp add: findOne_def)
qed

lemma mark_opened_already:
  assumes "truthy_str cookie" and "truthy_str nid"
    and "findOne (\<lambda>n. notificationId n = str_of nid \<and> userEmail n = str_of cookie) (db s) = Some found"
    and "opened found"
  shows "mark_opened s cookie nid now cb =
     \<lparr>new_state = s, response = AlreadyOpened, outbound = [], console = []\<rparr>"
  using assms by (simp add: mark_opened_def mark_find_def Let_def)

lemma mark_opened_first:
  assumes "truthy_str cookie" and "truthy_str nid"
    and "findOne (\<lambda>n. notificationId n = str_of nid \<and> userEmail n = str_of cookie) (db s) = Some found"
    and "\<not> opened found"
  shows "mark_opened s cookie nid now cb =
           mark_save s (str_of cookie) (str_of nid)
             (place (\<lambda>n. notificationId n = str_of nid \<and> userEmail n = str_of cookie) (db s))
             found now cb"
    and "findOne (\<lambda>n. notificationId n = str_of nid \<and> userEmail n = str_of cookie)
           (db (new_state (mark_opened s cookie nid now cb))) = Some (mark_transition now found)"
    and "response (mark_opened s cookie nid now cb) =
           MarkedOpened (api_view (mark_transition now found))"
    and "outbound (mark_opened s cookie nid now cb) =
           (if trackingEnabled found \<and> truthy_str (trackingCallbackUrl found)
            then [(str_of (trackingCallbackUrl found),
                   tracking_payload (mark_transition now found) (str_of cookie))]
            else [])"
proof -
  let ?q = "\<lambda>n. notificationId n = str_of nid \<and> userEmail n = str_of cookie"
  show split: "mark_opened s cookie nid now cb =
      mark_save s (str_of cookie) (str_of nid) (place ?q (db s)) found now cb"
    using assms by (simp add: mark_opened_def mark_find_def Let_def)
  have inside: "place ?q (db s) < length (db s)"
    using assms(3) find_place [of ?q "db s" found] by (simp add: findOne_def)
  then have "db (new_state (mark_opened s cookie nid now cb)) =
      (db s)[place ?q (db s) := mark_transition now (db s ! place ?q (db s))]"
    by (simp add: split mark_save_def Let_def)
  with findOne_after_transition [OF assms(3), of now]
  show "findOne ?q (db (new_state (mark_opened s cookie nid now cb))) =
      Some (mark_transition now found)"
    by simp
  show "response (mark_opened s cookie nid now cb) =
      MarkedOpened (api_view (mark_transition now found))"
    using inside by (simp add: split mark_save_def Let_def)
  show "outbound (mark_opened s cookie nid now cb) =
           (if trackingEnabled found \<and> truthy_str (trackingCallbackUrl found)
            then [(str_of (trackingCallbackUrl found),
                   tracking_payload (mark_transition now found) (str_of cookie))]
            else [])"
    using inside by (simp add: split mark_save_def Let_def mark_transition_def)
qed

lemma mark_opened_unchanged:
  assumes "\<not> truthy_str cookie \<or> \<not> truthy_str nid \<or>
     findOne (\<lambda>n. notificationId n = str_of nid \<and> userEmail n = str_of cookie) (db s) = None"
  shows "new_state (mark_opened s cookie nid now cb) = s"
    and "outbound (mark_opened s cookie nid now cb) = []"
    and "\<forall>v. response (mark_opened s cookie nid now cb) \<noteq> MarkedOpened v"
  using assms by (auto simp add: mark_opened_def mark_find_def Let_def)

text \<open>
  Two calls of which the second starts after the first has answered: an opened document is
  left alone, an unopened one is transitioned by the first call and left alone by the second,
  which makes no outbound call.
\<close>

lemma mark_opened_sequential:
  "(\<forall>found. truthy_str cookie \<and> truthy_str nid \<and>
       findOne (\<lambda>n. notificationId n = str_of nid \<and> userEmail n = str_of cookie) (db s) =
         Some found \<and>
       opened found \<longrightarrow>
       mark_opened s cookie nid t1 cb1 =
         \<lparr>new_state = s, response = AlreadyOpened, outbound = [], console = []\<rparr>) \<and>
   (\<forall>found. truthy_str cookie \<and> truthy_str nid \<and>
       findOne (\<lambda>n. notificationId n = str_of nid \<and> userEmail n = str_of cookie) (db s) =
         Some found \<and>
       \<not> opened found \<longrightarrow>
       response (mark_opened s cookie nid t1 cb1) =
         MarkedOpened (api_view (mark_transition t1 found)) \<and>
       findOne (\<lambda>n. notificationId n = str_of nid \<and> userEmail n = str_of cookie)
         (db (new_state (mark_opened s cookie nid t1 cb1))) = Some (mark_transition t1 found) \<and>
       mark_opened (new_state (mark_opened s cookie nid t1 cb1)) cookie nid t2 cb2 =
         \<lparr>new_state = new_state (mark_opened s cookie nid t1 cb1), response = AlreadyOpened,
          outbound = [], console = []\<rparr>) \<and>
   new_state (mark_opened (new_state (mark_opened s cookie nid t1 cb1)) cookie nid t2 cb2) =
     new_state (mark_opened s cookie nid t1 cb1) \<and>
   outbound (mark_opened (new_state (mark_opened s cookie nid t1 cb1)) cookie nid t2 cb2) = []"
proof -
  let ?q = "\<lambda>n. notificationId n = str_of nid \<and> userEmail n = str_of cookie"
  let ?r1 = "mark_opened s cookie nid t1 cb1"
  let ?r2 = "mark_opened (new_state ?r1) cookie nid t2 cb2"
  have already: "\<forall>found. truthy_str cookie \<and> truthy_str nid \<and> findOne ?q (db s) = Some found \<and>
       opened found \<longrightarrow>
       ?r1 = \<lparr>new_state = s, response = AlreadyOpened, outbound = [], console = []\<rparr>"
    by (simp add: mark_opened_already)
  have first: "response ?r1 = MarkedOpened (api_view (mark_transition t1 found)) \<and>
       findOne ?q (db (new_state ?r1)) = Some (mark_transition t1 found) \<and>
       ?r2 = \<lparr>new_state = new_state ?r1, response = AlreadyOpened, outbound = [], console = []\<rparr>"
    if h: "truthy_str cookie" "truthy_str nid" "findOne ?q (db s) = Some found" "\<not> opened found"
    for found
  proof -
    have found1: "findOne ?q (db (new_state ?r1)) = Some (mark_transition t1 found)"
      using h by (rule mark_opened_first(2))
    moreover have "opened (mark_transition t1 found)"
      by (simp add: mark_transition_def)
    ultimately have "?r2 =
        \<lparr>new_state = new_state ?r1, response = AlreadyOpened, outbound = [], console = []\<rparr>"
      using h(1,2) by (simp add: mark_opened_already)
    with found1 mark_opened_first(3) [OF h] show ?thesis by simp
  qed
  consider (rejected) "\<not> truthy_str cookie \<or> \<not> truthy_str nid \<or> findOne ?q (db s) = None"
    | (old) found where "truthy_str cookie" "truthy_str nid"
        "findOne ?q (db s) = Some found" "opened found"
    | (new) found where "truthy_str cookie" "truthy_str nid"
        "findOne ?q (db s) = Some found" "\<not> opened found"
    by (cases "findOne ?q (db s)") auto
  then have twice: "new_state ?r2 = new_state ?r1 \<and> outbound ?r2 = []"
  proof cases
    case rejected
    then show ?thesis by (simp add: mark_opened_unchanged)
  next
    case old
    then show ?thesis by (simp add: mark_opened_already)
  next
    case new
    then show ?thesis using first by simp
  qed
  show ?thesis using already first twice by blast
qed

text \<open>
  Claim C3. Two calls for the stored notification of \<^verbatim>\<open>a@x\<close> overlap: each runs its
  \<^verbatim>\<open>findOne\<close> on \<open>example_stored\<close>, where the document is not opened, and goes on with the
  document it loaded; then the first saves at time 2000 and the second at time 3000. Each of
  them makes one outbound call, the \<^verbatim>\<open>openedAt\<close> of the stored document goes from 2000 to
  3000, and the second call answers with a transitioned document.
\<close>

theorem C3_overlapping_calls_both_open:
  "mark_find example_stored (Some ''a@x'') (Some ''rel-1-7'') = Inr (0, hd (db example_stored)) \<and>
   length (outbound (mark_save example_stored ''a@x'' ''rel-1-7'' 0 (hd (db example_stored)) 2000
      (CallbackReturned 200))) = 1 \<and>
   map openedAt (db (new_state (mark_save example_stored ''a@x'' ''rel-1-7'' 0
      (hd (db example_stored)) 2000 (CallbackReturned 200)))) = [Some 2000] \<and>
   length (outbound (mark_save
      (new_state (mark_save example_stored ''a@x'' ''rel-1-7'' 0 (hd (db example_stored)) 2000
         (CallbackReturned 200)))
      ''a@x'' ''rel-1-7'' 0 (hd (db example_stored)) 3000 (CallbackReturned 200))) = 1 \<and>
   map openedAt (db (new_state (mark_save
      (new_state (mark_save example_stored ''a@x'' ''rel-1-7'' 0 (hd (db example_stored)) 2000
         (CallbackReturned 200)))
      ''a@x'' ''rel-1-7'' 0 (hd (db example_stored)) 3000 (CallbackReturned 200)))) = [Some 3000] \<and>
   (\<exists>v. response (mark_save
      (new_state (mark_save example_stored ''a@x'' ''rel-1-7'' 0 (hd (db example_stored)) 2000
         (CallbackReturned 200)))
      ''a@x'' ''rel-1-7'' 0 (hd (db example_stored)) 3000 (CallbackReturned 200)) = MarkedOpened v \<and>
      p_openedAt v = Some 3000)"
  by (simp add: run_defs)

section \<open>A failed callback does not reach the caller\<close>

text \<open>
  Claim C8. The state after a call, its response and its outbound calls do not depend on
  what the outbound call does. When the call makes the first transition of a document with
  tracking on and a callback URL, and the outbound call throws, the response is still the
  projection of the transitioned document, the collection holds that document with
  \<^verbatim>\<open>read\<close>, \<^verbatim>\<open>opened\<close> and \<^verbatim>\<open>openedAt\<close> set, and the failure is only logged.
\<close>

theorem C8_callback_failure_swallowed:
  "new_state (mark_opened s cookie nid now cb) = new_state (mark_opened s cookie nid now cb') \<and>
   response (mark_opened s cookie nid now cb) = response (mark_opened s cookie nid now cb') \<and>
   outbound (mark_opened s cookie nid now cb) = outbound (mark_opened s cookie nid now cb') \<and>
   (\<forall>found msg. truthy_str cookie \<and> truthy_str nid \<and>
       findOne (\<lambda>n. notificationId n = str_of nid \<and> userEmail n = str_of cookie) (db s) =
         Some found \<and>
       \<not> opened found \<and> trackingEnabled found \<and> truthy_str (trackingCallbackUrl found) \<longrightarrow>
       response (mark_opened s cookie nid now (CallbackThrew msg)) =
         MarkedOpened (api_view (mark_transition now found)) \<and>
       findOne (\<lambda>n. notificationId n = str_of nid \<and> userEmail n = str_of cookie)
         (db (new_state (mark_opened s cookie nid now (CallbackThrew msg)))) =
         Some (mark_transition now found) \<and>
       read (mark_transition now found) \<and> opened (mark_transition now found) \<and>
       openedAt (mark_transition now found) = Some now \<and>
       console (mark_opened s cookie nid now (CallbackThrew msg)) =
         [LogMarkedOpened (str_of nid) (str_of cookie),
          LogSendingCallback (str_of (trackingCallbackUrl found)),
          LogCallbackFailed msg])"
proof -
  let ?q = "\<lambda>n. notificationId n = str_of nid \<and> userEmail n = str_of cookie"
  have same: "new_state (mark_opened s cookie nid now cb) =
      new_state (mark_opened s cookie nid now cb') \<and>
    response (mark_opened s cookie nid now cb) = response (mark_opened s cookie nid now cb') \<and>
    outbound (mark_opened s cookie nid now cb) = outbound (mark_opened s cookie nid now cb')"
    by (simp add: mark_opened_def mark_save_def Let_def split: sum.splits)
  have thrown: "response (mark_opened s cookie nid now (CallbackThrew msg)) =
         MarkedOpened (api_view (mark_transition now found)) \<and>
       findOne ?q (db (new_state (mark_opened s cookie nid now (CallbackThrew msg)))) =
         Some (mark_transition now found) \<and>
       read (mark_transition now found) \<and> opened (mark_transition now found) \<and>
       openedAt (mark_transition now found) = Some now \<and>
       console (mark_opened s cookie nid now (CallbackThrew msg)) =
         [LogMarkedOpened (str_of nid) (str_of cookie),
          LogSendingCallback (str_of (trackingCallbackUrl found)),
          LogCallbackFailed msg]"
    if h: "truthy_str cookie" "truthy_str nid" "findOne ?q (db s) = Some found" "\<not> opened found"
      and tr: "trackingEnabled found" "truthy_str (trackingCallbackUrl found)"
    for found msg
  proof -
    have "findOne ?q (db (new_state (mark_opened s cookie nid now (CallbackThrew msg)))) =
        Some (mark_transition now found)"
      using h by (rule mark_opened_first(2))
    moreover have "response (mark_opened s cookie nid now (CallbackThrew msg)) =
         MarkedOpened (api_view (mark_transition now found))"
      using h by (rule mark_opened_first(3))
    moreover have "place ?q (db s) < length (db s)"
      using h(3) find_place [of ?q "db s" found] by (simp add: findOne_def)
    then have "console (mark_opened s cookie nid now (CallbackThrew msg)) =
         [LogMarkedOpened (str_of nid) (str_of cookie),
          LogSendingCallback (str_of (trackingCallbackUrl found)),
          LogCallbackFailed msg]"
      using tr by (simp add: mark_opened_first(1) [OF h] mark_save_def Let_def mark_transition_def)
    ultimately show ?thesis by (simp add: mark_transition_def)
  qed
  show ?thesis using same thrown by blast
qed

text \<open>
  The theorem at the stored notification of \<^verbatim>\<open>a@x\<close>, whose callback times out: the response
  is the one of a callback that returned 200.
\<close>

theorem C8_callback_failure_swallowed_witness:
  "response (mark_opened example_stored (Some ''a@x'') (Some ''rel-1-7'') 2000
      (CallbackThrew ''timeout'')) =
     response (mark_opened example_stored (Some ''a@x'') (Some ''rel-1-7'') 2000
      (CallbackReturned 200)) \<and>
   (\<exists>v. response (mark_opened example_stored (Some ''a@x'') (Some ''rel-1-7'') 2000
      (CallbackThrew ''timeout'')) = MarkedOpened v \<and>
      p_read v \<and> p_opened v \<and> p_openedAt v = Some 2000) \<and>
   console (mark_opened example_stored (Some ''a@x'') (Some ''rel-1-7'') 2000
      (CallbackThrew ''timeout'')) =
     [LogMarkedOpened ''rel-1-7'' ''a@x'', LogSendingCallback ''http://pm/opened'',
      LogCallbackFailed ''timeout'']"
proof -
  let ?q = "\<lambda>n. notificationId n = str_of (Some ''rel-1-7'') \<and> userEmail n = str_of (Some ''a@x'')"
  have "map_option (\<lambda>n. (opened n, trackingEnabled n, trackingCallbackUrl n))
      (findOne (\<lambda>n. notificationId n = ''rel-1-7'' \<and> userEmail n = ''a@x'') (db example_stored)) =
    Some (False, True, Some ''http://pm/opened'')"
    by (simp add: run_defs)
  then obtain found where f: "findOne ?q (db example_stored) = Some found" "\<not> opened found"
    "trackingEnabled found" "truthy_str (trackingCallbackUrl found)"
    "str_of (trackingCallbackUrl found) = ''http://pm/opened''"
    by (auto simp add: str_of_def truthy_str_def)
  have t: "truthy_str (Some ''a@x'')" "truthy_str (Some ''rel-1-7'')"
    by (simp_all add: truthy_str_def)
  from C8_callback_failure_swallowed [of example_stored "Some ''a@x''" "Some ''rel-1-7''" 2000
      "CallbackThrew ''timeout''" "CallbackReturned 200"] t f
  show ?thesis
    by (auto simp add: str_of_def api_view_def sseData_def mark_transition_def projection.extend_def)
qed

section \<open>Disconnect\<close>

text \<open>
  Claim C4, as the code has it. The \<^verbatim>\<open>close\<close> listener of any request that opened a stream
  for an email removes the entry of that email, whichever channel the map holds for it; the
  entries of other emails, the collection and the streams are untouched.
\<close>

theorem C4_unregister_unconditional:
  "clients (on_close s e ch) e = None \<and>
   (\<forall>e'. e' \<noteq> e \<longrightarrow> clients (on_close s e ch) e' = clients s e') \<and>
   db (on_close s e ch) = db s \<and> sent (on_close s e ch) = sent s"
  by (simp add: on_close_def)

text \<open>
  The theorem with \<^verbatim>\<open>a@x\<close> on connection 1 and \<^verbatim>\<open>b@x\<close> on connection 2, when connection
  1 closes.
\<close>

theorem C4_unregister_unconditional_witness:
  "clients (on_close (fst (events example_connected (Some ''b@x'') 2)) ''a@x'' 1) ''a@x'' = None \<and>
   clients (on_close (fst (events example_connected (Some ''b@x'') 2)) ''a@x'' 1) ''b@x'' = Some 2"
proof -
  have "clients (fst (events example_connected (Some ''b@x'') 2)) ''b@x'' = Some 2"
    by (simp add: events_def truthy_str_def str_of_def Let_def)
  moreover have "''b@x'' \<noteq> ''a@x''" by simp
  ultimately show ?thesis
    using C4_unregister_unconditional
      [of "fst (events example_connected (Some ''b@x'') 2)" "''a@x''" 1]
    by metis
qed

text \<open>
  Claim C4 as stated fails: \<^verbatim>\<open>a@x\<close> connects on connection 1, then again on connection 2,
  which the map now holds; the late close of connection 1 removes the entry of connection 2.
\<close>

theorem C4_stale_close_removes_newer_channel:
  "clients (fst (events (fst (events initial_state (Some ''a@x'') 1)) (Some ''a@x'') 2)) ''a@x'' =
     Some 2 \<and>
   clients (on_close (fst (events (fst (events initial_state (Some ''a@x'') 1)) (Some ''a@x'') 2))
              ''a@x'' 1) ''a@x'' = None"
  by (simp add: events_def on_close_def initial_state_def truthy_str_def str_of_def Let_def)

section \<open>Replay on connect\<close>

text \<open>
  Claim C5. For a request with a truthy email cookie, the handler writes on the new channel
  the handshake and then one event per pending document, in the order of
  \<open>pendingNotifications\<close>. That list holds each document of the collection with this email
  and \<^verbatim>\<open>opened = false\<close> exactly once and no other document, latest \<^verbatim>\<open>createdAt\<close> first.
\<close>

theorem C5_replay_on_connect:
  assumes "truthy_str cookie"
  shows "sent (fst (events s cookie ch)) =
           sent s @ (ch, Connected) #
             map (\<lambda>n. (ch, NotificationEvent (sseData n)))
               (pendingNotifications (str_of cookie) (db s)) \<and>
         mset (pendingNotifications (str_of cookie) (db s)) =
           mset (filter (\<lambda>n. userEmail n = str_of cookie \<and> \<not> opened n) (db s)) \<and>
         set (pendingNotifications (str_of cookie) (db s)) =
           {n \<in> set (db s). userEmail n = str_of cookie \<and> \<not> opened n} \<and>
         sorted_wrt (\<lambda>n m. createdAt m \<le> createdAt n)
           (pendingNotifications (str_of cookie) (db s))"
proof -
  let ?p = "pendingNotifications (str_of cookie) (db s)"
  have "sorted (map (\<lambda>n. - createdAt n) ?p)"
    by (simp add: pendingNotifications_def find_sorted_def)
  then have "sorted_wrt (\<lambda>n m. createdAt m \<le> createdAt n) ?p"
    by (simp add: sorted_wrt_map)
  moreover have "mset ?p = mset (filter (\<lambda>n. userEmail n = str_of cookie \<and> \<not> opened n) (db s))"
    by (simp add: pendingNotifications_def find_sorted_def)
  moreover have "set ?p = {n \<in> set (db s). userEmail n = str_of cookie \<and> \<not> opened n}"
    by (auto simp add: pendingNotifications_def find_sorted_def)
  moreover have "sent (fst (events s cookie ch)) =
      sent s @ (ch, Connected) # map (\<lambda>n. (ch, NotificationEvent (sseData n))) ?p"
    using assms by (simp add: events_def Let_def)
  ultimately show ?thesis by blast
qed

text \<open>
  The theorem when \<^verbatim>\<open>a@x\<close> connects to \<open>example_opened\<close>: of its three documents the
  opened one is left out and the other two are sent, the later one first; the document of
  \<^verbatim>\<open>b@x\<close> is not sent.
\<close>

theorem C5_replay_on_connect_witness:
  "truthy_str (Some ''a@x'') \<and>
   map notificationId (pendingNotifications ''a@x'' (db example_opened)) =
     [''rel-1-8'', ''rel-1-7''] \<and>
   map createdAt (pendingNotifications ''a@x'' (db example_opened)) = [1002, 1000] \<and>
   sent (fst (events example_opened (Some ''a@x'') 5)) =
     sent example_opened @ (5, Connected) #
       map (\<lambda>n. (5, NotificationEvent (sseData n)))
         (pendingNotifications ''a@x'' (db example_opened)) \<and>
   set (pendingNotifications ''a@x'' (db example_opened)) =
     {n \<in> set (db example_opened). userEmail n = ''a@x'' \<and> \<not> opened n} \<and>
   sorted_wrt (\<lambda>n m. createdAt m \<le> createdAt n)
     (pendingNotifications ''a@x'' (db example_opened))"
proof -
  have h: "truthy_str (Some ''a@x'')" by (simp add: truthy_str_def)
  have run: "map notificationId (pendingNotifications ''a@x'' (db example_opened)) =
      [''rel-1-8'', ''rel-1-7'']"
    "map createdAt (pendingNotifications ''a@x'' (db example_opened)) = [1002, 1000]"
    by (simp_all add: run_defs)
  from C5_replay_on_connect [OF h, of example_opened 5] h run
  show ?thesis by (simp add: str_of_def)
qed

section \<open>Read and opened go together\<close>

lemma length_filter_sort_key:
  "length (filter P (sort_key f xs)) = length (filter P xs)"
proof -
  have "mset (filter P (sort_key f xs)) = mset (filter P xs)"
    by (simp only: mset_filter mset_sort)
  then show ?thesis by (metis size_mset)
qed

lemma unreadCount_eq:
  assumes "truthy_str cookie"
  shows "get_notifications s cookie =
     Listed \<lparr>notifications = map api_view (find_sorted (\<lambda>n. userEmail n = str_of cookie) (db s)),
             count = length (filter (\<lambda>n. userEmail n = str_of cookie) (db s)),
             unreadCount = length (filter (\<lambda>n. userEmail n = str_of cookie \<and> \<not> read n) (db s))\<rparr>"
proof -
  have "filter (\<lambda>n. \<not> p_read n) (map api_view ns) = map api_view (filter (\<lambda>n. \<not> read n) ns)"
    for ns
    by (simp add: filter_map comp_def api_view_def sseData_def projection.extend_def)
  then show ?thesis using assms
    by (simp add: get_notifications_def Let_def find_sorted_def length_filter_sort_key conj_commute)
qed

text \<open>
  Claim C9. The document dispatch builds has \<^verbatim>\<open>read\<close> and \<^verbatim>\<open>opened\<close> false, the transition
  of mark-opened sets both. So in every state the server reaches, each document of the
  collection has \<^verbatim>\<open>read = opened\<close>, and the \<^verbatim>\<open>unreadCount\<close> of the list response is the number
  of the caller's documents that are not opened.
\<close>

theorem C9_read_equals_opened:
  assumes "reachable s"
  shows "read (userNotification ev b i t e) = False \<and>
         opened (userNotification ev b i t e) = False \<and>
         read (mark_transition now n) \<and> opened (mark_transition now n) \<and>
         (\<forall>n\<in>set (db s). read n = opened n) \<and>
         (\<forall>cookie l. get_notifications s cookie = Listed l \<longrightarrow>
            unreadCount l =
              length (filter (\<lambda>n. userEmail n = str_of cookie \<and> \<not> opened n) (db s)))"
proof -
  have inv: "\<forall>n\<in>set (db s). read n = opened n"
    using assms reachable_inv by blast
  have "unreadCount l = length (filter (\<lambda>n. userEmail n = str_of cookie \<and> \<not> opened n) (db s))"
    if l: "get_notifications s cookie = Listed l" for cookie l
  proof -
    have t: "truthy_str cookie"
      using l by (auto simp add: get_notifications_def split: if_splits)
    have "filter (\<lambda>n. userEmail n = str_of cookie \<and> \<not> read n) (db s) =
          filter (\<lambda>n. userEmail n = str_of cookie \<and> \<not> opened n) (db s)"
      using inv by (intro filter_cong) auto
    with unreadCount_eq [OF t, of s] l show ?thesis by auto
  qed
  then show ?thesis using inv by (simp add: userNotification_def mark_transition_def)
qed

text \<open>
  The theorem at \<open>example_opened\<close>: \<^verbatim>\<open>a@x\<close> has three documents, one of them opened, and
  the list response counts two unread.
\<close>

theorem C9_read_equals_opened_witness:
  "reachable example_opened \<and>
   map (\<lambda>n. (read n, opened n)) (db example_opened) =
     [(False, False), (True, True), (False, False), (False, False)] \<and>
   (\<exists>l. get_notifications example_opened (Some ''a@x'') = Listed l \<and> count l = 3 \<and>
      unreadCount l = 2 \<and>
      unreadCount l =
        length (filter (\<lambda>n. userEmail n = ''a@x'' \<and> \<not> opened n) (db example_opened)))"
proof -
  have run: "map (\<lambda>n. (read n, opened n)) (db example_opened) =
     [(False, False), (True, True), (False, False), (False, False)]"
    by (simp add: run_defs)
  have n: "length (filter (\<lambda>n. userEmail n = ''a@x'') (db example_opened)) = 3"
    "length (filter (\<lambda>n. userEmail n = ''a@x'' \<and> \<not> read n) (db example_opened)) = 2"
    by (simp_all add: run_defs)
  have "truthy_str (Some ''a@x'')" by (simp add: truthy_str_def)
  from unreadCount_eq [OF this, of example_opened] n
  obtain l where l: "get_notifications example_opened (Some ''a@x'') = Listed l"
    "count l = 3" "unreadCount l = 2"
    by (simp add: str_of_def)
  from C9_read_equals_opened [OF reachable_example_opened] l(1)
  have "unreadCount l =
      length (filter (\<lambda>n. userEmail n = str_of (Some ''a@x'') \<and> \<not> opened n) (db example_opened))"
    by blast
  with l run reachable_example_opened show ?thesis by (simp add: str_of_def)
qed

end
